theory Spec2Isabelle
  imports Main "HOL-Library.Word"
begin

unbundle bit_operations_syntax

section \<open>Register file\<close>

text \<open>
  The driver in \<^verbatim>\<open>src/spi_baremetal.c\<close> touches hardware only through
  \<^verbatim>\<open>volatile uint32_t\<close> locations. Every access is therefore a bus event
  that must happen as written. The model keeps the registers as a record and
  logs each read and write, in program order, in \<open>trace\<close>.

  Configuration registers (clock enables, GPIO mode, alternate function,
  output data, SPI control) behave as memory: a read returns the last value
  written. The status register is read-only and moves under hardware control:
  its \<open>n\<close>-th read returns \<open>sr_script n\<close>. A read of the data register drains
  the receive buffer: its \<open>n\<close>-th read returns \<open>dr_script n\<close>. A write to the data
  register is logged and kept in \<open>mem\<close>, but no read looks at it there.
\<close>

type_synonym u8 = "8 word"
type_synonym u32 = "32 word"

datatype reg =
    SPI1_CR1 | SPI1_CR2 | SPI1_SR | SPI1_DR
  | RCC_AHB1ENR | RCC_APB2ENR
  | GPIOA_MODER | GPIOA_AFRL | GPIOA_ODR

datatype event = Rd reg u32 | Wr reg u32

record regfile =
  mem :: "reg \<Rightarrow> u32"
  sr_script :: "nat \<Rightarrow> u32"
  dr_script :: "nat \<Rightarrow> u32"
  sr_reads :: nat
  dr_reads :: nat
  trace :: "event list"

definition reg_read :: "reg \<Rightarrow> regfile \<Rightarrow> u32 \<times> regfile" where
  "reg_read r s =
     (if r = SPI1_SR then
        (let v = sr_script s (sr_reads s)
         in (v, s\<lparr>sr_reads := Suc (sr_reads s), trace := trace s @ [Rd r v]\<rparr>))
      else if r = SPI1_DR then
        (let v = dr_script s (dr_reads s)
         in (v, s\<lparr>dr_reads := Suc (dr_reads s), trace := trace s @ [Rd r v]\<rparr>))
      else (mem s r, s\<lparr>trace := trace s @ [Rd r (mem s r)]\<rparr>))"

definition reg_write :: "reg \<Rightarrow> u32 \<Rightarrow> regfile \<Rightarrow> regfile" where
  "reg_write r v s = s\<lparr>mem := (mem s)(r := v), trace := trace s @ [Wr r v]\<rparr>"

text \<open>The compound assignments \<^verbatim>\<open>REG |= v\<close> and \<^verbatim>\<open>REG &= v\<close> on a volatile
  location: one read followed by one write.\<close>

definition reg_or_assign :: "reg \<Rightarrow> u32 \<Rightarrow> regfile \<Rightarrow> regfile" where
  "reg_or_assign r v s = (let (x, s1) = reg_read r s in reg_write r (x OR v) s1)"

definition reg_and_assign :: "reg \<Rightarrow> u32 \<Rightarrow> regfile \<Rightarrow> regfile" where
  "reg_and_assign r v s = (let (x, s1) = reg_read r s in reg_write r (x AND v) s1)"

section \<open>Constants of the driver\<close>

definition NSS_PIN :: u32 where "NSS_PIN = push_bit 4 1"
definition SCK_PIN :: u32 where "SCK_PIN = push_bit 5 1"
definition MISO_PIN :: u32 where "MISO_PIN = push_bit 6 1"
definition MOSI_PIN :: u32 where "MOSI_PIN = push_bit 7 1"

text \<open>The masks of \<^verbatim>\<open>spi_init\<close>, written as the source writes them. The source
  computes them in \<^verbatim>\<open>int\<close> and converts to \<^verbatim>\<open>uint32_t\<close> at the assignment; on
  the 32-bit two's-complement target this is the same bit pattern (also for
  \<^verbatim>\<open>0xF << 28\<close>, which leaves the range of \<^verbatim>\<open>int\<close> and which the target's compilers
  evaluate to the pattern 0xF0000000).\<close>

definition MODER_CLEAR :: u32 where
  "MODER_CLEAR = push_bit 8 3 OR push_bit 10 3 OR push_bit 12 3 OR push_bit 14 3"

definition MODER_AF :: u32 where
  "MODER_AF = push_bit 8 2 OR push_bit 10 2 OR push_bit 12 2 OR push_bit 14 2"

definition AFRL_CLEAR :: u32 where
  "AFRL_CLEAR = push_bit 16 0xF OR push_bit 20 0xF OR push_bit 24 0xF OR push_bit 28 0xF"

definition AFRL_AF5 :: u32 where
  "AFRL_AF5 = push_bit 16 5 OR push_bit 20 5 OR push_bit 24 5 OR push_bit 28 5"

section \<open>Initialisation\<close>

definition spi_init :: "regfile \<Rightarrow> regfile" where
  "spi_init s0 =
     (let s1 = reg_or_assign RCC_AHB1ENR (push_bit 0 1) s0;
          s2 = reg_or_assign RCC_APB2ENR (push_bit 12 1) s1;
          s3 = reg_and_assign GPIOA_MODER (NOT MODER_CLEAR) s2;
          s4 = reg_or_assign GPIOA_MODER MODER_AF s3;
          s5 = reg_and_assign GPIOA_AFRL (NOT AFRL_CLEAR) s4;
          s6 = reg_or_assign GPIOA_AFRL AFRL_AF5 s5;
          s7 = reg_write SPI1_CR1 0 s6;
          s8 = reg_or_assign SPI1_CR1 (push_bit 2 1) s7;
          s9 = reg_or_assign SPI1_CR1 (push_bit 3 3) s8;
          s10 = reg_or_assign SPI1_CR1 (push_bit 1 0) s9;
          s11 = reg_or_assign SPI1_CR1 (push_bit 0 0) s10
      in reg_or_assign SPI1_CR1 (push_bit 6 1) s11)"

section \<open>Byte transfer\<close>

text \<open>\<^verbatim>\<open>main\<close> calls \<^verbatim>\<open>spi_init\<close> once and then \<^verbatim>\<open>spi_exchange_data(0x55)\<close> forever; it is
  the external caller and is not modelled.

  The three busy-wait loops of the source have the shape
  \<^verbatim>\<open>while (cond(SPI1_SR));\<close> with an empty body: read the status register,
  leave when the condition is false, otherwise read again. There is no
  counter and no other exit, so a loop whose condition never becomes false
  does not return: the value \<open>None\<close>.\<close>

partial_function (option) spin_while :: "(u32 \<Rightarrow> bool) \<Rightarrow> regfile \<Rightarrow> regfile option" where
  "spin_while c s =
     (case reg_read SPI1_SR s of
        (sr, s1) \<Rightarrow> if c sr then spin_while c s1 else Some s1)"

declare spin_while.simps [code]

definition TXE_clear :: "u32 \<Rightarrow> bool" where
  "TXE_clear sr = (sr AND push_bit 1 1 = 0)"

definition BSY_set :: "u32 \<Rightarrow> bool" where
  "BSY_set sr = (sr AND push_bit 7 1 \<noteq> 0)"

definition RXNE_clear :: "u32 \<Rightarrow> bool" where
  "RXNE_clear sr = (sr AND push_bit 0 1 = 0)"

definition spi_transmit :: "regfile \<Rightarrow> u8 \<Rightarrow> regfile option" where
  "spi_transmit s data =
     (case spin_while TXE_clear s of
        None \<Rightarrow> None
      | Some s1 \<Rightarrow> spin_while BSY_set (reg_write SPI1_DR (ucast data) s1))"

definition spi_receive :: "regfile \<Rightarrow> (u8 \<times> regfile) option" where
  "spi_receive s =
     (case spin_while RXNE_clear s of
        None \<Rightarrow> None
      | Some s1 \<Rightarrow> (case reg_read SPI1_DR s1 of (v, s2) \<Rightarrow> Some (ucast v, s2)))"

text \<open>\<^verbatim>\<open>spi_exchange_data\<close> is declared \<^verbatim>\<open>void\<close>: the value it hands back is
  \<open>()\<close>. The byte returned by \<^verbatim>\<open>spi_receive\<close> is bound to the local
  \<^verbatim>\<open>received_data\<close> and not used again.\<close>

definition spi_exchange_data :: "regfile \<Rightarrow> u8 \<Rightarrow> (unit \<times> regfile) option" where
  "spi_exchange_data s data =
     (let s1 = reg_and_assign GPIOA_ODR (NOT NSS_PIN) s
      in case spi_transmit s1 data of
           None \<Rightarrow> None
         | Some s2 \<Rightarrow>
             (case spi_receive s2 of
                None \<Rightarrow> None
              | Some (received_data, s3) \<Rightarrow> Some ((), reg_or_assign GPIOA_ODR NSS_PIN s3)))"

section \<open>Observing a run\<close>

text \<open>The bus events a call adds to the log, and projections of a log.\<close>

definition events_since :: "regfile \<Rightarrow> regfile \<Rightarrow> event list" where
  "events_since s s' = drop (length (trace s)) (trace s')"

definition init_events :: "regfile \<Rightarrow> event list" where
  "init_events s = events_since s (spi_init s)"

fun is_write_to :: "reg \<Rightarrow> event \<Rightarrow> bool" where
  "is_write_to r (Wr r' v) = (r' = r)"
| "is_write_to r (Rd r' v) = False"

fun is_read_of :: "reg \<Rightarrow> event \<Rightarrow> bool" where
  "is_read_of r (Rd r' v) = (r' = r)"
| "is_read_of r (Wr r' v) = False"

fun writes_of :: "reg \<Rightarrow> event list \<Rightarrow> u32 list" where
  "writes_of r [] = []"
| "writes_of r (Wr r' v # es) = (if r' = r then v # writes_of r es else writes_of r es)"
| "writes_of r (Rd r' v # es) = writes_of r es"

fun reads_of :: "reg \<Rightarrow> event list \<Rightarrow> u32 list" where
  "reads_of r [] = []"
| "reads_of r (Rd r' v # es) = (if r' = r then v # reads_of r es else reads_of r es)"
| "reads_of r (Wr r' v # es) = reads_of r es"

text \<open>The bus events of the status-register reads number \<open>a\<close> up to \<open>b - 1\<close>, and the
  state after \<open>k\<close> consecutive reads of the status register.\<close>

definition sr_seen :: "regfile \<Rightarrow> nat \<Rightarrow> nat \<Rightarrow> event list" where
  "sr_seen s a b = map (\<lambda>i. Rd SPI1_SR (sr_script s i)) [a ..< b]"

definition sr_polls :: "nat \<Rightarrow> regfile \<Rightarrow> regfile" where
  "sr_polls k s =
     s\<lparr>sr_reads := sr_reads s + k,
       trace := trace s @ sr_seen s (sr_reads s) (sr_reads s + k)\<rparr>"

text \<open>A loop \<^verbatim>\<open>while (c(SPI1_SR));\<close> started in \<open>s\<close> sees \<open>c\<close> hold on its first \<open>n\<close>
  reads and fail on the next one.\<close>

definition exits_after :: "(u32 \<Rightarrow> bool) \<Rightarrow> regfile \<Rightarrow> nat \<Rightarrow> bool" where
  "exits_after c s n =
     ((\<forall>i<n. c (sr_script s (sr_reads s + i))) \<and> \<not> c (sr_script s (sr_reads s + n)))"

text \<open>The first statement of \<^verbatim>\<open>spi_exchange_data\<close>: chip select driven low.\<close>

definition cs_low :: "regfile \<Rightarrow> regfile" where
  "cs_low s = reg_and_assign GPIOA_ODR (NOT NSS_PIN) s"

text \<open>The three loops of one exchange, in program order, leave after \<open>n\<close>, \<open>m\<close> and \<open>k\<close>
  idle reads: TXE is clear on \<open>n\<close> reads and then set, BSY is set on the next \<open>m\<close> reads
  and then clear, RXNE is clear on the next \<open>k\<close> reads and then set.\<close>

definition exchange_polls :: "regfile \<Rightarrow> nat \<Rightarrow> nat \<Rightarrow> nat \<Rightarrow> bool" where
  "exchange_polls s n m k =
     (exits_after TXE_clear s n \<and>
      exits_after BSY_set (sr_polls (Suc n) s) m \<and>
      exits_after RXNE_clear (sr_polls (Suc n + Suc m) s) k)"

text \<open>The state such an exchange ends in, statement by statement.\<close>

definition exchange_result :: "regfile \<Rightarrow> u8 \<Rightarrow> nat \<Rightarrow> nat \<Rightarrow> nat \<Rightarrow> regfile" where
  "exchange_result s data n m k =
     (let s1 = cs_low s;
          s2 = sr_polls (Suc n) s1;
          s3 = reg_write SPI1_DR (ucast data) s2;
          s4 = sr_polls (Suc m) s3;
          s5 = sr_polls (Suc k) s4;
          s6 = snd (reg_read SPI1_DR s5)
      in reg_or_assign GPIOA_ODR NSS_PIN s6)"

text \<open>A scripted register file for concrete runs: every configuration register holds
  \<open>init\<close>, the status register answers from the list \<open>srs\<close> (and with 0 once the
  list is used up), the data register yields \<open>rx\<close>.\<close>

definition mock :: "u32 \<Rightarrow> u32 list \<Rightarrow> u32 \<Rightarrow> regfile" where
  "mock init srs rx =
     \<lparr>mem = (\<lambda>r. init), sr_script = (\<lambda>n. if n < length srs then srs ! n else 0),
      dr_script = (\<lambda>n. rx), sr_reads = 0, dr_reads = 0, trace = []\<rparr>"

section \<open>Facts about the model\<close>

subsection \<open>Initialisation is straight-line code\<close>

lemma consts_val:
  "NSS_PIN = 0x10" "MODER_CLEAR = 0xFF00" "MODER_AF = 0xAA00" "AFRL_CLEAR = 0xFFFF0000" "AFRL_AF5 = 0x55550000"
  by (simp_all add: NSS_PIN_def MODER_CLEAR_def MODER_AF_def AFRL_CLEAR_def AFRL_AF5_def)

lemma reg_read_mem: "r \<noteq> SPI1_SR \<Longrightarrow> r \<noteq> SPI1_DR \<Longrightarrow>
  reg_read r s = (mem s r, s\<lparr>trace := trace s @ [Rd r (mem s r)]\<rparr>)"
  by (simp add: reg_read_def)

lemma init_events_eq:
  "init_events s =
     [Rd RCC_AHB1ENR (mem s RCC_AHB1ENR),
      Wr RCC_AHB1ENR (mem s RCC_AHB1ENR OR 1),
      Rd RCC_APB2ENR (mem s RCC_APB2ENR),
      Wr RCC_APB2ENR (mem s RCC_APB2ENR OR 4096),
      Rd GPIOA_MODER (mem s GPIOA_MODER),
      Wr GPIOA_MODER (mem s GPIOA_MODER AND NOT MODER_CLEAR),
      Rd GPIOA_MODER (mem s GPIOA_MODER AND NOT MODER_CLEAR),
      Wr GPIOA_MODER (mem s GPIOA_MODER AND NOT MODER_CLEAR OR MODER_AF),
      Rd GPIOA_AFRL (mem s GPIOA_AFRL),
      Wr GPIOA_AFRL (mem s GPIOA_AFRL AND NOT AFRL_CLEAR),
      Rd GPIOA_AFRL (mem s GPIOA_AFRL AND NOT AFRL_CLEAR),
      Wr GPIOA_AFRL (mem s GPIOA_AFRL AND NOT AFRL_CLEAR OR AFRL_AF5),
      Wr SPI1_CR1 0, Rd SPI1_CR1 0, Wr SPI1_CR1 4, Rd SPI1_CR1 4,
      Wr SPI1_CR1 28, Rd SPI1_CR1 28, Wr SPI1_CR1 28, Rd SPI1_CR1 28,
      Wr SPI1_CR1 28, Rd SPI1_CR1 28, Wr SPI1_CR1 92]"
  by (simp add: init_events_def events_since_def spi_init_def reg_or_assign_def reg_and_assign_def
      reg_read_mem reg_write_def Let_def)

lemma spi_init_mem:
  "mem (spi_init s) = (mem s)
     (RCC_AHB1ENR := mem s RCC_AHB1ENR OR 1,
      RCC_APB2ENR := mem s RCC_APB2ENR OR 4096,
      GPIOA_MODER := mem s GPIOA_MODER AND NOT MODER_CLEAR OR MODER_AF,
      GPIOA_AFRL := mem s GPIOA_AFRL AND NOT AFRL_CLEAR OR AFRL_AF5,
      SPI1_CR1 := 92)"
  by (simp add: spi_init_def reg_or_assign_def reg_and_assign_def reg_read_mem reg_write_def Let_def)

lemma no_event_before:
  assumes "\<forall>e \<in> set (take n xs). \<not> Q e" and "k < length xs" and "Q (xs ! k)"
  shows "n \<le> k"
proof (rule ccontr)
  assume "\<not> n \<le> k"
  then have "k < length (take n xs)" using assms(2) by simp
  then have "take n xs ! k \<in> set (take n xs)" by (rule nth_mem)
  moreover have "take n xs ! k = xs ! k" using \<open>\<not> n \<le> k\<close> by simp
  ultimately show False using assms(1,3) by auto
qed

subsection \<open>Bit positions of the masks\<close>

lemma bit_MODER_CLEAR: "bit MODER_CLEAR i \<longleftrightarrow> 8 \<le> i \<and> i < 16"
proof -
  have h: "MODER_CLEAR = push_bit 8 (mask 8)"
    by (simp add: MODER_CLEAR_def mask_eq_exp_minus_1)
  show ?thesis unfolding h by (auto simp add: bit_simps)
qed

lemma bit_AFRL_CLEAR: "bit AFRL_CLEAR i \<longleftrightarrow> 16 \<le> i \<and> i < 32"
proof -
  have h: "AFRL_CLEAR = push_bit 16 (mask 16)"
    by (simp add: AFRL_CLEAR_def mask_eq_exp_minus_1)
  show ?thesis unfolding h by (auto simp add: bit_simps)
qed

lemma MODER_AF_within: "MODER_AF AND NOT MODER_CLEAR = 0"
  by (simp add: MODER_AF_def MODER_CLEAR_def)

lemma AFRL_AF5_within: "AFRL_AF5 AND NOT AFRL_CLEAR = 0"
  by (simp add: AFRL_AF5_def AFRL_CLEAR_def)

lemma field_update_frame:
  fixes x m v :: u32
  assumes "v AND NOT m = 0" and "\<not> bit m i"
  shows "bit (x AND NOT m OR v) i = bit x i"
proof (cases "bit v i")
  case True
  then have "i < 32" using bit_imp_le_length [of v i] by simp
  with True assms(2) have "bit (v AND NOT m) i" by (simp add: bit_simps)
  with assms(1) show ?thesis by simp
next
  case False
  show ?thesis
  proof (cases "i < 32")
    case True
    with False assms(2) show ?thesis by (simp add: bit_simps)
  next
    case F: False
    then have "\<not> bit x i" "\<not> bit (x AND NOT m OR v) i"
      using bit_imp_le_length [of x i] bit_imp_le_length [of "x AND NOT m OR v" i] by auto
    then show ?thesis by simp
  qed
qed

lemma bit_or_single: 
  fixes x :: u32
  shows "i \<noteq> n \<Longrightarrow> bit (x OR push_bit n 1) i = bit x i"
  by (auto simp add: bit_simps)

subsection \<open>The busy-wait loop\<close>

lemma sr_polls_simps [simp]:
  "mem (sr_polls k s) = mem s" "sr_script (sr_polls k s) = sr_script s"
  "dr_script (sr_polls k s) = dr_script s" "sr_reads (sr_polls k s) = sr_reads s + k"
  "dr_reads (sr_polls k s) = dr_reads s"
  "trace (sr_polls k s) = trace s @ sr_seen s (sr_reads s) (sr_reads s + k)"
  by (simp_all add: sr_polls_def)

lemma read_sr_then_polls:
  "sr_polls k (snd (reg_read SPI1_SR s)) = sr_polls (Suc k) s"
proof -
  have "[sr_reads s ..< sr_reads s + Suc k] = sr_reads s # [Suc (sr_reads s) ..< Suc (sr_reads s) + k]"
    by (simp del: upt_Suc add: upt_conv_Cons)
  then show ?thesis
    by (simp del: upt_Suc add: sr_polls_def sr_seen_def reg_read_def Let_def)
qed

lemma spin_while_exit:
  "exits_after c s n \<Longrightarrow> spin_while c s = Some (sr_polls (Suc n) s)"
proof (induction n arbitrary: s)
  case 0
  then have "\<not> c (sr_script s (sr_reads s))" by (simp add: exits_after_def)
  then show ?case
    by (subst spin_while.simps) (simp add: reg_read_def sr_polls_def sr_seen_def Let_def)
next
  case (Suc n)
  let ?s1 = "snd (reg_read SPI1_SR s)"
  from Suc.prems have c0: "c (sr_script s (sr_reads s))"
    and later: "exits_after c ?s1 n"
    by (auto simp add: exits_after_def reg_read_def Let_def)
  from later have "spin_while c ?s1 = Some (sr_polls (Suc n) ?s1)" by (rule Suc.IH)
  then have "spin_while c ?s1 = Some (sr_polls (Suc (Suc n)) s)"
    by (simp only: read_sr_then_polls)
  with c0 show ?case
    by (subst spin_while.simps) (simp add: reg_read_def Let_def)
qed

lemma spin_while_Some_exit:
  "spin_while c s = Some s' \<Longrightarrow> \<exists>n. \<not> c (sr_script s (sr_reads s + n))"
proof (rule spin_while.raw_induct [where P = "\<lambda>c s s'. \<exists>n. \<not> c (sr_script s (sr_reads s + n))"])
  fix spin :: "(u32 \<Rightarrow> bool) \<Rightarrow> regfile \<Rightarrow> regfile option" and c s s'
  assume IH: "\<And>c s s'. spin c s = Some s' \<Longrightarrow> \<exists>n. \<not> c (sr_script s (sr_reads s + n))"
    and body: "(case reg_read SPI1_SR s of (sr, s1) \<Rightarrow> if c sr then spin c s1 else Some s1) = Some s'"
  show "\<exists>n. \<not> c (sr_script s (sr_reads s + n))"
  proof (cases "c (sr_script s (sr_reads s))")
    case True
    with body have "spin c (snd (reg_read SPI1_SR s)) = Some s'"
      by (simp add: reg_read_def Let_def)
    then obtain n where "\<not> c (sr_script (snd (reg_read SPI1_SR s)) (sr_reads (snd (reg_read SPI1_SR s)) + n))"
      using IH by blast
    then have "\<not> c (sr_script s (sr_reads s + Suc n))" by (simp add: reg_read_def Let_def)
    then show ?thesis by blast
  next
    case False
    then have "\<not> c (sr_script s (sr_reads s + 0))" by simp
    then show ?thesis by blast
  qed
qed

lemma exits_after_Least:
  assumes "\<not> c (sr_script s (sr_reads s + n))"
  shows "exits_after c s (LEAST n. \<not> c (sr_script s (sr_reads s + n)))"
  unfolding exits_after_def
  using LeastI [of "\<lambda>n. \<not> c (sr_script s (sr_reads s + n))", OF assms]
    not_less_Least [of _ "\<lambda>n. \<not> c (sr_script s (sr_reads s + n))"]
  by blast

lemma exits_after_code [code]:
  "exits_after c s n =
     (list_all (\<lambda>i. c (sr_script s (sr_reads s + i))) [0 ..< n] \<and>
      \<not> c (sr_script s (sr_reads s + n)))"
  by (auto simp add: exits_after_def list_all_iff)


lemma exits_after_cong:
  "sr_script s = sr_script t \<Longrightarrow> sr_reads s = sr_reads t \<Longrightarrow> exits_after c s n = exits_after c t n"
  by (simp add: exits_after_def)

lemma spin_while_Some_iff:
  "spin_while c s = Some s' \<longleftrightarrow> (\<exists>n. exits_after c s n \<and> s' = sr_polls (Suc n) s)"
proof
  assume r: "spin_while c s = Some s'"
  then obtain n where "\<not> c (sr_script s (sr_reads s + n))"
    using spin_while_Some_exit by blast
  then obtain k where k: "exits_after c s k" using exits_after_Least by blast
  with r have "s' = sr_polls (Suc k) s" using spin_while_exit [OF k] by simp
  with k show "\<exists>n. exits_after c s n \<and> s' = sr_polls (Suc n) s" by blast
next
  assume "\<exists>n. exits_after c s n \<and> s' = sr_polls (Suc n) s"
  then show "spin_while c s = Some s'" using spin_while_exit by blast
qed

lemma spin_while_None_iff:
  "spin_while c s = None \<longleftrightarrow> (\<forall>n. c (sr_script s (sr_reads s + n)))"
proof
  assume n: "spin_while c s = None"
  show "\<forall>n. c (sr_script s (sr_reads s + n))"
  proof (rule ccontr)
    assume "\<not> (\<forall>n. c (sr_script s (sr_reads s + n)))"
    then obtain k where "exits_after c s k" using exits_after_Least by blast
    then show False using spin_while_exit n by fastforce
  qed
next
  assume a: "\<forall>n. c (sr_script s (sr_reads s + n))"
  show "spin_while c s = None"
  proof (cases "spin_while c s")
    case (Some s')
    then show ?thesis using spin_while_Some_exit a by blast
  qed simp
qed

subsection \<open>One exchange in closed form\<close>

lemma cs_low_simps [simp]:
  "sr_script (cs_low s) = sr_script s" "sr_reads (cs_low s) = sr_reads s"
  "dr_script (cs_low s) = dr_script s" "dr_reads (cs_low s) = dr_reads s"
  "mem (cs_low s) = (mem s)(GPIOA_ODR := mem s GPIOA_ODR AND NOT NSS_PIN)"
  "trace (cs_low s) = trace s @ [Rd GPIOA_ODR (mem s GPIOA_ODR), Wr GPIOA_ODR (mem s GPIOA_ODR AND NOT NSS_PIN)]"
  by (simp_all add: cs_low_def reg_and_assign_def reg_read_mem reg_write_def)

lemma reg_write_simps [simp]:
  "sr_script (reg_write r v s) = sr_script s" "sr_reads (reg_write r v s) = sr_reads s"
  "dr_script (reg_write r v s) = dr_script s" "dr_reads (reg_write r v s) = dr_reads s"
  "mem (reg_write r v s) = (mem s)(r := v)"
  "trace (reg_write r v s) = trace s @ [Wr r v]"
  by (simp_all add: reg_write_def)

lemma spin_while_SomeD:
  assumes "spin_while c s = Some s'"
  obtains n where "exits_after c s n" and "s' = sr_polls (Suc n) s"
  using assms spin_while_Some_iff by blast

lemma spi_transmit_Some_iff:
  "spi_transmit s data = Some s' \<longleftrightarrow>
     (\<exists>n m. exits_after TXE_clear s n \<and> exits_after BSY_set (sr_polls (Suc n) s) m \<and>
        s' = sr_polls (Suc m) (reg_write SPI1_DR (ucast data) (sr_polls (Suc n) s)))"
  (is "?L \<longleftrightarrow> ?R")
proof -
  have eq: "exits_after BSY_set (reg_write SPI1_DR (ucast data) (sr_polls (Suc n) s)) m =
        exits_after BSY_set (sr_polls (Suc n) s) m" for n m
    by (rule exits_after_cong) simp_all
  show ?thesis
  proof
    assume L: ?L
    then obtain s1 where s1: "spin_while TXE_clear s = Some s1"
      and s2: "spin_while BSY_set (reg_write SPI1_DR (ucast data) s1) = Some s'"
      by (auto simp add: spi_transmit_def split: option.splits)
    from s1 obtain n where n: "exits_after TXE_clear s n" "s1 = sr_polls (Suc n) s"
      by (rule spin_while_SomeD)
    from s2 obtain m where m: "exits_after BSY_set (reg_write SPI1_DR (ucast data) s1) m"
      "s' = sr_polls (Suc m) (reg_write SPI1_DR (ucast data) s1)"
      by (rule spin_while_SomeD)
    from n m show ?R unfolding n(2) eq by blast
  next
    assume ?R
    then obtain n m where n: "exits_after TXE_clear s n"
      and m: "exits_after BSY_set (sr_polls (Suc n) s) m"
      and s': "s' = sr_polls (Suc m) (reg_write SPI1_DR (ucast data) (sr_polls (Suc n) s))"
      by blast
    from m have "exits_after BSY_set (reg_write SPI1_DR (ucast data) (sr_polls (Suc n) s)) m"
      by (simp only: eq)
    then show ?L
      by (simp add: spi_transmit_def spin_while_exit [OF n] spin_while_exit s')
  qed
qed

lemma spi_receive_Some_iff:
  "spi_receive s = Some (rx, s') \<longleftrightarrow>
     (\<exists>k. exits_after RXNE_clear s k \<and> rx = ucast (dr_script s (dr_reads s)) \<and>
        s' = snd (reg_read SPI1_DR (sr_polls (Suc k) s)))"
  (is "?L \<longleftrightarrow> ?R")
proof
  assume ?L
  then obtain s1 where s1: "spin_while RXNE_clear s = Some s1"
    and r: "rx = ucast (fst (reg_read SPI1_DR s1))" "s' = snd (reg_read SPI1_DR s1)"
    by (auto simp add: spi_receive_def split: option.splits prod.splits)
  from s1 obtain k where k: "exits_after RXNE_clear s k" "s1 = sr_polls (Suc k) s"
    by (rule spin_while_SomeD)
  have "fst (reg_read SPI1_DR s1) = dr_script s (dr_reads s)"
    unfolding k(2) by (simp add: reg_read_def Let_def)
  with r k show ?R by auto
next
  assume ?R
  then obtain k where k: "exits_after RXNE_clear s k"
    and r: "rx = ucast (dr_script s (dr_reads s))" "s' = snd (reg_read SPI1_DR (sr_polls (Suc k) s))"
    by blast
  show ?L
    by (simp add: spi_receive_def spin_while_exit [OF k] r reg_read_def Let_def)
qed

lemma spi_exchange_data_Some_iff:
  "spi_exchange_data s data = Some r \<longleftrightarrow>
     (\<exists>n m k. exchange_polls s n m k \<and> r = ((), exchange_result s data n m k))"
  (is "?L \<longleftrightarrow> ?R")
proof -
  have e1: "exits_after c (cs_low s) n = exits_after c s n" for c n
    by (rule exits_after_cong) simp_all
  have e2: "exits_after c (sr_polls (Suc n) (cs_low s)) m = exits_after c (sr_polls (Suc n) s) m" for c n m
    by (rule exits_after_cong) simp_all
  have e3: "exits_after c (sr_polls (Suc m) (reg_write SPI1_DR v (sr_polls (Suc n) (cs_low s)))) k
      = exits_after c (sr_polls (Suc n + Suc m) s) k" for c n m k v
    by (rule exits_after_cong) simp_all
  have unfold: "spi_exchange_data s data =
     (case spi_transmit (cs_low s) data of None \<Rightarrow> None
      | Some s2 \<Rightarrow> (case spi_receive s2 of None \<Rightarrow> None
          | Some (received_data, s3) \<Rightarrow> Some ((), reg_or_assign GPIOA_ODR NSS_PIN s3)))"
    by (simp add: spi_exchange_data_def cs_low_def)
  show ?thesis
  proof
    assume ?L
    then obtain s2 rx s3 where t: "spi_transmit (cs_low s) data = Some s2"
      and rc: "spi_receive s2 = Some (rx, s3)"
      and r: "r = ((), reg_or_assign GPIOA_ODR NSS_PIN s3)"
      unfolding unfold by (auto split: option.splits)
    from t obtain n m where n: "exits_after TXE_clear (cs_low s) n"
      and m: "exits_after BSY_set (sr_polls (Suc n) (cs_low s)) m"
      and s2: "s2 = sr_polls (Suc m) (reg_write SPI1_DR (ucast data) (sr_polls (Suc n) (cs_low s)))"
      unfolding spi_transmit_Some_iff by blast
    from rc obtain k where k: "exits_after RXNE_clear s2 k"
      and s3: "s3 = snd (reg_read SPI1_DR (sr_polls (Suc k) s2))"
      unfolding spi_receive_Some_iff by blast
    have "exchange_polls s n m k"
      using n m k unfolding s2 e1 e2 e3 exchange_polls_def by simp
    moreover have "r = ((), exchange_result s data n m k)"
      unfolding r s3 s2 exchange_result_def Let_def by simp
    ultimately show ?R by blast
  next
    assume ?R
    then obtain n m k where p: "exchange_polls s n m k" and r: "r = ((), exchange_result s data n m k)"
      by blast
    let ?s2 = "sr_polls (Suc m) (reg_write SPI1_DR (ucast data) (sr_polls (Suc n) (cs_low s)))"
    from p have "exits_after TXE_clear (cs_low s) n" "exits_after BSY_set (sr_polls (Suc n) (cs_low s)) m"
      and k: "exits_after RXNE_clear ?s2 k"
      unfolding e1 e2 e3 exchange_polls_def by simp_all
    then have t: "spi_transmit (cs_low s) data = Some ?s2"
      unfolding spi_transmit_Some_iff by blast
    from k have rc: "spi_receive ?s2 =
        Some (ucast (dr_script ?s2 (dr_reads ?s2)), snd (reg_read SPI1_DR (sr_polls (Suc k) ?s2)))"
      unfolding spi_receive_Some_iff by blast
    show ?L by (simp add: unfold t rc r exchange_result_def Let_def)
  qed
qed

lemma exchange_result_events:
  "events_since s (exchange_result s data n m k) =
     [Rd GPIOA_ODR (mem s GPIOA_ODR), Wr GPIOA_ODR (mem s GPIOA_ODR AND NOT NSS_PIN)]
     @ sr_seen s (sr_reads s) (sr_reads s + Suc n)
     @ [Wr SPI1_DR (ucast data)]
     @ sr_seen s (sr_reads s + Suc n) (sr_reads s + Suc n + Suc m)
     @ sr_seen s (sr_reads s + Suc n + Suc m) (sr_reads s + Suc n + Suc m + Suc k)
     @ [Rd SPI1_DR (dr_script s (dr_reads s)),
        Rd GPIOA_ODR (mem s GPIOA_ODR AND NOT NSS_PIN),
        Wr GPIOA_ODR (mem s GPIOA_ODR AND NOT NSS_PIN OR NSS_PIN)]"
  by (simp add: events_since_def exchange_result_def Let_def reg_or_assign_def reg_read_def
      sr_seen_def)

lemma exchange_result_mem:
  "mem (exchange_result s data n m k) =
     (mem s)(SPI1_DR := ucast data, GPIOA_ODR := mem s GPIOA_ODR AND NOT NSS_PIN OR NSS_PIN)"
  by (simp add: exchange_result_def Let_def reg_or_assign_def reg_read_def fun_upd_twist)

subsection \<open>Flags, chip select and projections of the log\<close>

lemma TXE_clear_iff: "TXE_clear sr \<longleftrightarrow> \<not> bit sr 1"
  unfolding TXE_clear_def push_bit_of_1 by (rule and_exp_eq_0_iff_not_bit)

lemma BSY_set_iff: "BSY_set sr \<longleftrightarrow> bit sr 7"
  unfolding BSY_set_def push_bit_of_1 by (simp only: and_exp_eq_0_iff_not_bit not_not)

lemma RXNE_clear_iff: "RXNE_clear sr \<longleftrightarrow> \<not> bit sr 0"
  unfolding RXNE_clear_def push_bit_of_1 by (rule and_exp_eq_0_iff_not_bit)

lemma bit_NSS_PIN: "bit NSS_PIN i \<longleftrightarrow> i = 4"
proof -
  have h: "NSS_PIN = 2 ^ 4" by (simp add: NSS_PIN_def)
  show ?thesis unfolding h bit_exp_iff by auto
qed

lemma sr_seen_snoc: "a \<le> b \<Longrightarrow> sr_seen s a (Suc b) = sr_seen s a b @ [Rd SPI1_SR (sr_script s b)]"
  by (simp add: sr_seen_def)

lemma sr_seen_no_write [simp]: "e \<in> set (sr_seen s a b) \<Longrightarrow> \<not> is_write_to r e"
  by (auto simp add: sr_seen_def)

lemma writes_of_append [simp]: "writes_of r (xs @ ys) = writes_of r xs @ writes_of r ys"
  by (induction r xs rule: writes_of.induct) simp_all

lemma reads_of_append [simp]: "reads_of r (xs @ ys) = reads_of r xs @ reads_of r ys"
  by (induction r xs rule: reads_of.induct) simp_all

lemma writes_of_sr_seen [simp]: "writes_of r (sr_seen s a b) = []"
proof -
  have "writes_of r (map (\<lambda>i. Rd SPI1_SR (sr_script s i)) xs) = []" for xs
    by (induction xs) simp_all
  then show ?thesis by (simp add: sr_seen_def)
qed

lemma reads_of_DR_sr_seen [simp]: "reads_of SPI1_DR (sr_seen s a b) = []"
proof -
  have "reads_of SPI1_DR (map (\<lambda>i. Rd SPI1_SR (sr_script s i)) xs) = []" for xs
    by (induction xs) simp_all
  then show ?thesis by (simp add: sr_seen_def)
qed

lemma exits_after_le:
  assumes "\<not> c (sr_script s (sr_reads s + j))"
  obtains n where "n \<le> j" and "exits_after c s n"
proof
  let ?n = "LEAST n. \<not> c (sr_script s (sr_reads s + n))"
  show "?n \<le> j" using assms by (rule Least_le)
  show "exits_after c s ?n" using assms by (rule exits_after_Least)
qed

section \<open>Initialisation: claims\<close>

text \<open>
  Claim C9. After \<^verbatim>\<open>spi_init\<close>, SPI Control Register 1 (zeroed first) holds exactly
  0x5C: master-mode bit 2 is set, the three-bit clock-divider field at position 3 holds 3
  (divide by 16), CPOL (bit 1) and CPHA (bit 0) are clear, and the enable bit 6 is set.
  This holds for every register content before the call.
\<close>

theorem init_cr1_final_value:
  "mem (spi_init s) SPI1_CR1 = 0x5C \<and>
   bit (mem (spi_init s) SPI1_CR1) 2 \<and>
   take_bit 3 (drop_bit 3 (mem (spi_init s) SPI1_CR1)) = 3 \<and>
   \<not> bit (mem (spi_init s) SPI1_CR1) 1 \<and>
   \<not> bit (mem (spi_init s) SPI1_CR1) 0 \<and>
   bit (mem (spi_init s) SPI1_CR1) 6"
  by (simp add: spi_init_mem)

text \<open>
  Claim C3. In every run of \<^verbatim>\<open>spi_init\<close> the write that sets the GPIOA clock-enable
  bit (bit 0 of RCC_AHB1ENR) is the second bus event and the write that sets the SPI1
  clock-enable bit (bit 12 of RCC_APB2ENR) is the fourth; every write to GPIOA_MODER,
  GPIOA_AFRL or SPI1_CR1 comes strictly later in the event sequence.
\<close>

theorem init_clocks_enabled_first:
  "init_events s ! 1 = Wr RCC_AHB1ENR (mem s RCC_AHB1ENR OR push_bit 0 1) \<and>
   bit (mem s RCC_AHB1ENR OR push_bit 0 1) 0 \<and>
   init_events s ! 3 = Wr RCC_APB2ENR (mem s RCC_APB2ENR OR push_bit 12 1) \<and>
   bit (mem s RCC_APB2ENR OR push_bit 12 1) 12 \<and>
   (\<forall>k < length (init_events s).
      is_write_to GPIOA_MODER (init_events s ! k) \<or>
      is_write_to GPIOA_AFRL (init_events s ! k) \<or>
      is_write_to SPI1_CR1 (init_events s ! k) \<longrightarrow> 3 < k)"
proof -
  let ?Q = "\<lambda>e. is_write_to GPIOA_MODER e \<or> is_write_to GPIOA_AFRL e \<or> is_write_to SPI1_CR1 e"
  have early: "\<forall>e \<in> set (take 4 (init_events s)). \<not> ?Q e"
    by (simp add: init_events_eq)
  have "\<forall>k < length (init_events s). ?Q (init_events s ! k) \<longrightarrow> 3 < k"
  proof (intro allI impI)
    fix k assume "k < length (init_events s)" and "?Q (init_events s ! k)"
    with early have "4 \<le> k" by (rule no_event_before)
    then show "3 < k" by simp
  qed
  moreover have "init_events s ! 1 = Wr RCC_AHB1ENR (mem s RCC_AHB1ENR OR push_bit 0 1)"
    "init_events s ! 3 = Wr RCC_APB2ENR (mem s RCC_APB2ENR OR push_bit 12 1)"
    by (simp_all add: init_events_eq)
  moreover have "bit (mem s RCC_AHB1ENR OR push_bit 0 1) 0"
    "bit (mem s RCC_APB2ENR OR push_bit 12 1) 12"
    by (simp_all add: bit_simps)
  ultimately show ?thesis by blast
qed

theorem init_clocks_enabled_first_witness:
  "init_events (mock 0 [] 0) ! 1 = Wr RCC_AHB1ENR 1 \<and>
   init_events (mock 0 [] 0) ! 3 = Wr RCC_APB2ENR 0x1000 \<and>
   5 < length (init_events (mock 0 [] 0)) \<and>
   is_write_to GPIOA_MODER (init_events (mock 0 [] 0) ! 5) \<and> (3::nat) < 5"
  using init_clocks_enabled_first [of "mock 0 [] 0"]
  by (simp add: init_events_eq mock_def)

text \<open>
  Claim C4. \<^verbatim>\<open>spi_init\<close> writes SPI1_CR1 six times: the zeroing write, then the
  master-mode, clock-divider, CPOL and CPHA writes, then the enable write. None of the
  first five written values has the enable bit 6 set; the sixth has. So the enable bit
  goes from 0 to 1 only after the four field writes of the same call.
\<close>

theorem init_enable_bit_last:
  "writes_of SPI1_CR1 (init_events s) = [0, 0x04, 0x1C, 0x1C, 0x1C, 0x5C] \<and>
   (\<forall>v \<in> set (take 5 (writes_of SPI1_CR1 (init_events s))). \<not> bit v 6) \<and>
   bit (writes_of SPI1_CR1 (init_events s) ! 5) 6"
  by (simp add: init_events_eq)

theorem init_enable_bit_last_witness:
  "(0x1C::u32) \<in> set (take 5 (writes_of SPI1_CR1 (init_events (mock 0xFFFFFFFF [] 0)))) \<and>
   \<not> bit (0x1C::u32) 6 \<and>
   writes_of SPI1_CR1 (init_events (mock 0xFFFFFFFF [] 0)) ! 5 = 0x5C"
  using init_enable_bit_last [of "mock 0xFFFFFFFF [] 0"]
  by simp

text \<open>
  Claim C8. For all register contents before the call, \<^verbatim>\<open>spi_init\<close> leaves unchanged
  every bit of RCC_AHB1ENR other than bit 0, every bit of RCC_APB2ENR other than bit 12,
  every bit of GPIOA_MODER outside bits 8..15 (the mode fields of PA4..PA7) and every bit
  of GPIOA_AFRL outside bits 16..31 (the alternate-function fields of PA4..PA7).
\<close>

theorem init_frame:
  "(i \<noteq> 0 \<longrightarrow> bit (mem (spi_init s) RCC_AHB1ENR) i = bit (mem s RCC_AHB1ENR) i) \<and>
   (i \<noteq> 12 \<longrightarrow> bit (mem (spi_init s) RCC_APB2ENR) i = bit (mem s RCC_APB2ENR) i) \<and>
   (\<not> (8 \<le> i \<and> i < 16) \<longrightarrow> bit (mem (spi_init s) GPIOA_MODER) i = bit (mem s GPIOA_MODER) i) \<and>
   (\<not> (16 \<le> i \<and> i < 32) \<longrightarrow> bit (mem (spi_init s) GPIOA_AFRL) i = bit (mem s GPIOA_AFRL) i)"
proof -
  have ahb: "mem (spi_init s) RCC_AHB1ENR = mem s RCC_AHB1ENR OR push_bit 0 1"
    and apb: "mem (spi_init s) RCC_APB2ENR = mem s RCC_APB2ENR OR push_bit 12 1"
    and moder: "mem (spi_init s) GPIOA_MODER = mem s GPIOA_MODER AND NOT MODER_CLEAR OR MODER_AF"
    and afrl: "mem (spi_init s) GPIOA_AFRL = mem s GPIOA_AFRL AND NOT AFRL_CLEAR OR AFRL_AF5"
    by (simp_all add: spi_init_mem)
  have "i \<noteq> 0 \<Longrightarrow> bit (mem (spi_init s) RCC_AHB1ENR) i = bit (mem s RCC_AHB1ENR) i"
    unfolding ahb by (rule bit_or_single)
  moreover have "i \<noteq> 12 \<Longrightarrow> bit (mem (spi_init s) RCC_APB2ENR) i = bit (mem s RCC_APB2ENR) i"
    unfolding apb by (rule bit_or_single)
  moreover have "\<not> (8 \<le> i \<and> i < 16) \<Longrightarrow>
      bit (mem (spi_init s) GPIOA_MODER) i = bit (mem s GPIOA_MODER) i"
    unfolding moder by (rule field_update_frame [OF MODER_AF_within]) (simp add: bit_MODER_CLEAR)
  moreover have "\<not> (16 \<le> i \<and> i < 32) \<Longrightarrow>
      bit (mem (spi_init s) GPIOA_AFRL) i = bit (mem s GPIOA_AFRL) i"
    unfolding afrl by (rule field_update_frame [OF AFRL_AF5_within]) (simp add: bit_AFRL_CLEAR)
  ultimately show ?thesis by blast
qed

theorem init_frame_witness:
  "(3::nat) \<noteq> 0 \<and> (3::nat) \<noteq> 12 \<and> \<not> (8 \<le> (3::nat) \<and> (3::nat) < 16) \<and>
   \<not> (16 \<le> (3::nat) \<and> (3::nat) < 32) \<and>
   bit (mem (spi_init (mock 0x0000FF08 [] 0)) RCC_AHB1ENR) 3 \<and>
   bit (mem (spi_init (mock 0x0000FF08 [] 0)) RCC_APB2ENR) 3 \<and>
   bit (mem (spi_init (mock 0x0000FF08 [] 0)) GPIOA_MODER) 3 \<and>
   bit (mem (spi_init (mock 0x0000FF08 [] 0)) GPIOA_AFRL) 3"
  using init_frame [of 3 "mock 0x0000FF08 [] 0"]
  by (simp add: mock_def)

text \<open>
  Claim C2, as stated: during pin configuration each of GPIOA_MODER and GPIOA_AFRL
  receives exactly one bus write, with clear and set applied together, and no value
  with the fields cleared but not yet set is written. The source uses two compound
  assignments per register (\<^verbatim>\<open>&=\<close> then \<^verbatim>\<open>|=\<close>) on a volatile location, so each
  register is written twice. Starting from all-ones registers, GPIOA_MODER is first
  written with 0xFFFF00FF (fields of PA4..PA7 cleared, not yet set) and then with
  0xFFFFAAFF; GPIOA_AFRL is first written with 0x0000FFFF and then with 0x5555FFFF.
\<close>

theorem pin_config_single_write_counterexample:
  "writes_of GPIOA_MODER (init_events (mock 0xFFFFFFFF [] 0)) = [0xFFFF00FF, 0xFFFFAAFF] \<and>
   length (writes_of GPIOA_MODER (init_events (mock 0xFFFFFFFF [] 0))) \<noteq> 1 \<and>
   writes_of GPIOA_AFRL (init_events (mock 0xFFFFFFFF [] 0)) = [0x0000FFFF, 0x5555FFFF] \<and>
   length (writes_of GPIOA_AFRL (init_events (mock 0xFFFFFFFF [] 0))) \<noteq> 1"
  by (simp add: init_events_eq mock_def consts_val)

text \<open>
  Claim C2, amended: for each of GPIOA_MODER and GPIOA_AFRL, \<^verbatim>\<open>spi_init\<close> performs
  exactly two bus writes. The first writes the old value with the fields of PA4..PA7
  cleared; the second writes that value with the new field values set, and this is the
  value the register holds when \<^verbatim>\<open>spi_init\<close> returns.
\<close>

theorem pin_config_two_writes_per_register:
  "writes_of GPIOA_MODER (init_events s) =
     [mem s GPIOA_MODER AND NOT MODER_CLEAR, (mem s GPIOA_MODER AND NOT MODER_CLEAR) OR MODER_AF] \<and>
   mem (spi_init s) GPIOA_MODER = (mem s GPIOA_MODER AND NOT MODER_CLEAR) OR MODER_AF \<and>
   writes_of GPIOA_AFRL (init_events s) =
     [mem s GPIOA_AFRL AND NOT AFRL_CLEAR, (mem s GPIOA_AFRL AND NOT AFRL_CLEAR) OR AFRL_AF5] \<and>
   mem (spi_init s) GPIOA_AFRL = (mem s GPIOA_AFRL AND NOT AFRL_CLEAR) OR AFRL_AF5"
  by (simp add: init_events_eq spi_init_mem)

section \<open>Byte transfer: claims\<close>

subsection \<open>Further facts\<close>

lemma sr_seen_cong: "sr_script t = sr_script s \<Longrightarrow> sr_seen t a b = sr_seen s a b"
  by (simp add: sr_seen_def)

lemma exits_after_from:
  assumes "sr_reads s \<le> j" and "\<not> c (sr_script s j)"
  obtains n where "sr_reads s + n \<le> j" and "exits_after c s n"
proof -
  from assms(1) have e: "sr_reads s + (j - sr_reads s) = j" by simp
  from assms(2) have "\<not> c (sr_script s (sr_reads s + (j - sr_reads s)))" unfolding e .
  then obtain n where n: "n \<le> j - sr_reads s" "exits_after c s n" by (rule exits_after_le)
  from n(1) assms(1) have "sr_reads s + n \<le> j" by simp
  then show ?thesis using n(2) by (rule that)
qed

lemma exchange_polls_iff_flags:
  "(\<exists>n m k. exchange_polls s n m k) \<longleftrightarrow>
     (\<exists>a b k. sr_reads s \<le> a \<and> a < b \<and> b < k \<and>
        bit (sr_script s a) 1 \<and> \<not> bit (sr_script s b) 7 \<and> bit (sr_script s k) 0)"
  (is "?L \<longleftrightarrow> ?R")
proof
  assume ?L
  then obtain n m k where p: "exchange_polls s n m k" by blast
  let ?a = "sr_reads s + n" and ?b = "sr_reads s + Suc n + m" and ?k = "sr_reads s + Suc n + Suc m + k"
  from p have "bit (sr_script s ?a) 1" "\<not> bit (sr_script s ?b) 7" "bit (sr_script s ?k) 0"
    by (simp_all add: exchange_polls_def exits_after_def TXE_clear_iff BSY_set_iff RXNE_clear_iff add_ac)
  moreover have "sr_reads s \<le> ?a" "?a < ?b" "?b < ?k" by simp_all
  ultimately show ?R by blast
next
  assume ?R
  then obtain a b k where ord: "sr_reads s \<le> a" "a < b" "b < k"
    and txe: "bit (sr_script s a) 1" and bsy: "\<not> bit (sr_script s b) 7"
    and rxne: "bit (sr_script s k) 0"
    by blast
  from txe have "\<not> TXE_clear (sr_script s a)" by (simp add: TXE_clear_iff)
  with ord(1) obtain n where n: "sr_reads s + n \<le> a" "exits_after TXE_clear s n"
    by (rule exits_after_from)
  let ?s1 = "sr_polls (Suc n) s"
  from n(1) ord(2) have "sr_reads ?s1 \<le> b" by simp
  moreover from bsy have "\<not> BSY_set (sr_script ?s1 b)" by (simp add: BSY_set_iff)
  ultimately obtain m where m: "sr_reads ?s1 + m \<le> b" "exits_after BSY_set ?s1 m"
    by (rule exits_after_from)
  let ?s2 = "sr_polls (Suc n + Suc m) s"
  from m(1) ord(3) have "sr_reads ?s2 \<le> k" by simp
  moreover from rxne have "\<not> RXNE_clear (sr_script ?s2 k)" by (simp add: RXNE_clear_iff)
  ultimately obtain j where j: "sr_reads ?s2 + j \<le> k" "exits_after RXNE_clear ?s2 j"
    by (rule exits_after_from)
  from n(2) m(2) j(2) have "exchange_polls s n m j" by (simp add: exchange_polls_def)
  then show ?L by blast
qed

subsection \<open>Two concrete runs\<close>

lemma mock_run:
  "exchange_polls (mock init [2, 0, 1] rx) 0 0 0"
  by (simp add: exchange_polls_def exits_after_def mock_def TXE_clear_iff BSY_set_iff RXNE_clear_iff)

lemma mock_returns:
  "spi_exchange_data (mock init [2, 0, 1] rx) tx =
     Some ((), exchange_result (mock init [2, 0, 1] rx) tx 0 0 0)"
  unfolding spi_exchange_data_Some_iff using mock_run by blast




subsection \<open>The claims\<close>

text \<open>
  Claim C7. \<^verbatim>\<open>spi_exchange_data\<close> returns if and only if the status register shows TXE
  set at some read \<open>a\<close> of the call, BSY clear at some later read \<open>b\<close>, and RXNE set at
  some read \<open>k\<close> after that. Each busy-wait loop fails to return exactly when its awaited
  flag never reaches the awaited state from the loop's first read on. The only outcomes
  are a normal return and no return: there is no timeout, retry bound or error value.
\<close>

theorem exchange_returns_iff_flags_observed:
  "((\<exists>r. spi_exchange_data s tx = Some r) \<longleftrightarrow>
      (\<exists>a b k. sr_reads s \<le> a \<and> a < b \<and> b < k \<and>
         bit (sr_script s a) 1 \<and> \<not> bit (sr_script s b) 7 \<and> bit (sr_script s k) 0)) \<and>
   (spin_while TXE_clear s = None \<longleftrightarrow> (\<forall>n. \<not> bit (sr_script s (sr_reads s + n)) 1)) \<and>
   (spin_while BSY_set s = None \<longleftrightarrow> (\<forall>n. bit (sr_script s (sr_reads s + n)) 7)) \<and>
   (spin_while RXNE_clear s = None \<longleftrightarrow> (\<forall>n. \<not> bit (sr_script s (sr_reads s + n)) 0))"
proof -
  have "(\<exists>r. spi_exchange_data s tx = Some r) \<longleftrightarrow> (\<exists>n m k. exchange_polls s n m k)"
    unfolding spi_exchange_data_Some_iff by blast
  then show ?thesis
    by (simp only: exchange_polls_iff_flags spin_while_None_iff TXE_clear_iff BSY_set_iff
        RXNE_clear_iff simp_thms)
qed

theorem exchange_returns_iff_flags_observed_witness:
  "spi_exchange_data (mock 0 [] 0xAA) 0x55 = None \<and>
   spin_while TXE_clear (mock 0 [] 0xAA) = None \<and>
   (\<exists>r. spi_exchange_data (mock 0 [2, 0, 1] 0xAA) 0x55 = Some r)"
proof -
  let ?dead = "mock 0 [] 0xAA" and ?live = "mock 0 [2, 0, 1] 0xAA"
  have never: "\<not> bit (sr_script ?dead i) 1" for i
    by (simp add: mock_def)
  have "sr_reads ?live \<le> 0 \<and> (0::nat) < 1 \<and> (1::nat) < 2 \<and>
      bit (sr_script ?live 0) 1 \<and> \<not> bit (sr_script ?live 1) 7 \<and> bit (sr_script ?live 2) 0"
    by (simp add: mock_def)
  then have seen: "\<exists>a b k. sr_reads ?live \<le> a \<and> a < b \<and> b < k \<and>
      bit (sr_script ?live a) 1 \<and> \<not> bit (sr_script ?live b) 7 \<and> bit (sr_script ?live k) 0"
    by (intro exI)
  have unseen: "\<not> (\<exists>a b k. sr_reads ?dead \<le> a \<and> a < b \<and> b < k \<and>
      bit (sr_script ?dead a) 1 \<and> \<not> bit (sr_script ?dead b) 7 \<and> bit (sr_script ?dead k) 0)"
    using never by simp
  note live = exchange_returns_iff_flags_observed [of ?live "0x55"]
  note dead = exchange_returns_iff_flags_observed [of ?dead "0x55"]
  from seen have "\<exists>r. spi_exchange_data ?live 0x55 = Some r"
    by (rule live [THEN conjunct1, THEN iffD2])
  moreover have "\<not> (\<exists>r. spi_exchange_data ?dead 0x55 = Some r)"
    unfolding dead [THEN conjunct1] by (rule unseen)
  then have "spi_exchange_data ?dead 0x55 = None"
    by (cases "spi_exchange_data ?dead 0x55") auto
  moreover have "spin_while TXE_clear ?dead = None"
    unfolding dead [THEN conjunct2, THEN conjunct1] by (simp add: mock_def)
  ultimately show ?thesis by (intro conjI)
qed

text \<open>
  Claim C5. Take any call of \<^verbatim>\<open>spi_exchange_data\<close>, with any input byte, in which the
  status register shows TXE set at some read \<open>a\<close> of the call, BSY clear at some later
  read \<open>b\<close> and RXNE set at some read \<open>k\<close> after that (these are exactly the calls that
  return; in any other call a busy-wait loop spins forever and there is no last status
  read). The call returns, and its bus events are: a read of GPIOA_ODR, a write of
  GPIOA_ODR with bit 4 (chip select) clear, a middle part without any write of GPIOA_ODR,
  and a last write of GPIOA_ODR with bit 4 set. The data-register write and every
  status-register read of the call lie in the middle part, so chip select is low before
  the first data-register write and goes high after the last status-register read.
\<close>

theorem exchange_select_bracket:
  assumes "sr_reads s \<le> a" and "a < b" and "b < k"
    and "bit (sr_script s a) 1" and "\<not> bit (sr_script s b) 7" and "bit (sr_script s k) 0"
  shows "\<exists>s' mid.
          spi_exchange_data s tx = Some ((), s') \<and>
          events_since s s' =
            [Rd GPIOA_ODR (mem s GPIOA_ODR), Wr GPIOA_ODR (mem s GPIOA_ODR AND NOT NSS_PIN)]
            @ mid
            @ [Wr GPIOA_ODR (mem s GPIOA_ODR AND NOT NSS_PIN OR NSS_PIN)] \<and>
          \<not> bit (mem s GPIOA_ODR AND NOT NSS_PIN) 4 \<and>
          bit (mem s GPIOA_ODR AND NOT NSS_PIN OR NSS_PIN) 4 \<and>
          (\<forall>e \<in> set mid. \<not> is_write_to GPIOA_ODR e) \<and>
          (\<exists>e \<in> set mid. is_write_to SPI1_DR e) \<and>
          (\<exists>e \<in> set mid. is_read_of SPI1_SR e) \<and>
          writes_of SPI1_DR (events_since s s') = writes_of SPI1_DR mid \<and>
          reads_of SPI1_SR (events_since s s') = reads_of SPI1_SR mid"
proof -
  from assms have "\<exists>a b k. sr_reads s \<le> a \<and> a < b \<and> b < k \<and>
      bit (sr_script s a) 1 \<and> \<not> bit (sr_script s b) 7 \<and> bit (sr_script s k) 0"
    by (intro exI conjI)
  then obtain n m j where polls: "exchange_polls s n m j"
    unfolding exchange_polls_iff_flags [symmetric] by (elim exE)
  let ?s' = "exchange_result s tx n m j"
  from polls have run: "spi_exchange_data s tx = Some ((), ?s')"
    unfolding spi_exchange_data_Some_iff by (intro exI conjI) simp_all
  let ?c = "sr_reads s"
  let ?mid = "sr_seen s ?c (?c + Suc n) @ [Wr SPI1_DR (ucast tx)]
     @ sr_seen s (?c + Suc n) (?c + Suc n + Suc m)
     @ sr_seen s (?c + Suc n + Suc m) (?c + Suc n + Suc m + Suc j)
     @ [Rd SPI1_DR (dr_script s (dr_reads s)), Rd GPIOA_ODR (mem s GPIOA_ODR AND NOT NSS_PIN)]"
  have ev: "events_since s ?s' =
      [Rd GPIOA_ODR (mem s GPIOA_ODR), Wr GPIOA_ODR (mem s GPIOA_ODR AND NOT NSS_PIN)]
      @ ?mid @ [Wr GPIOA_ODR (mem s GPIOA_ODR AND NOT NSS_PIN OR NSS_PIN)]"
    unfolding exchange_result_events by simp
  have low: "\<not> bit (mem s GPIOA_ODR AND NOT NSS_PIN) 4"
    and high: "bit (mem s GPIOA_ODR AND NOT NSS_PIN OR NSS_PIN) 4"
    by (simp_all add: bit_simps bit_NSS_PIN)
  have quiet: "\<forall>e \<in> set ?mid. \<not> is_write_to GPIOA_ODR e"
    by auto
  have dr: "\<exists>e \<in> set ?mid. is_write_to SPI1_DR e"
    by simp
  have "Rd SPI1_SR (sr_script s ?c) \<in> set (sr_seen s ?c (?c + Suc n))"
    by (simp add: sr_seen_def del: upt_Suc)
  then have sr: "\<exists>e \<in> set ?mid. is_read_of SPI1_SR e"
    by (intro bexI [of _ "Rd SPI1_SR (sr_script s ?c)"]) simp_all
  have w: "writes_of SPI1_DR (events_since s ?s') = writes_of SPI1_DR ?mid"
    and r: "reads_of SPI1_SR (events_since s ?s') = reads_of SPI1_SR ?mid"
    unfolding ev by simp_all
  from run ev low high quiet dr sr w r show ?thesis by blast
qed

theorem exchange_select_bracket_witness:
  "sr_reads (mock 0xFFFFFFFF [0, 0, 0, 2, 0x80, 0, 0, 1] 0xAA) \<le> 3 \<and>
   (3::nat) < 5 \<and> (5::nat) < 7 \<and>
   bit (sr_script (mock 0xFFFFFFFF [0, 0, 0, 2, 0x80, 0, 0, 1] 0xAA) 3) 1 \<and>
   \<not> bit (sr_script (mock 0xFFFFFFFF [0, 0, 0, 2, 0x80, 0, 0, 1] 0xAA) 5) 7 \<and>
   bit (sr_script (mock 0xFFFFFFFF [0, 0, 0, 2, 0x80, 0, 0, 1] 0xAA) 7) 0 \<and>
   (\<exists>s' mid.
      spi_exchange_data (mock 0xFFFFFFFF [0, 0, 0, 2, 0x80, 0, 0, 1] 0xAA) 0x55 = Some ((), s') \<and>
      events_since (mock 0xFFFFFFFF [0, 0, 0, 2, 0x80, 0, 0, 1] 0xAA) s' =
        [Rd GPIOA_ODR 0xFFFFFFFF, Wr GPIOA_ODR 0xFFFFFFEF] @ mid @ [Wr GPIOA_ODR 0xFFFFFFFF] \<and>
      (\<forall>e \<in> set mid. \<not> is_write_to GPIOA_ODR e))"
proof -
  let ?M = "mock 0xFFFFFFFF [0, 0, 0, 2, 0x80, 0, 0, 1] 0xAA"
  have h: "sr_reads ?M \<le> 3" "(3::nat) < 5" "(5::nat) < 7"
    "bit (sr_script ?M 3) 1" "\<not> bit (sr_script ?M 5) 7" "bit (sr_script ?M 7) 0"
    by (simp_all add: mock_def)
  have v: "mem ?M GPIOA_ODR = 0xFFFFFFFF"
    "(0xFFFFFFFF :: u32) AND NOT NSS_PIN = 0xFFFFFFEF"
    "(0xFFFFFFEF :: u32) OR NSS_PIN = 0xFFFFFFFF"
    by (simp_all add: mock_def NSS_PIN_def)
  from exchange_select_bracket [OF h, of "0x55"] obtain s' mid where
    "spi_exchange_data ?M 0x55 = Some ((), s')"
    "events_since ?M s' =
       [Rd GPIOA_ODR (mem ?M GPIOA_ODR), Wr GPIOA_ODR (mem ?M GPIOA_ODR AND NOT NSS_PIN)]
       @ mid @ [Wr GPIOA_ODR (mem ?M GPIOA_ODR AND NOT NSS_PIN OR NSS_PIN)]"
    "\<forall>e \<in> set mid. \<not> is_write_to GPIOA_ODR e"
    by blast
  then have "\<exists>s' mid. spi_exchange_data ?M 0x55 = Some ((), s') \<and>
      events_since ?M s' =
        [Rd GPIOA_ODR 0xFFFFFFFF, Wr GPIOA_ODR 0xFFFFFFEF] @ mid @ [Wr GPIOA_ODR 0xFFFFFFFF] \<and>
      (\<forall>e \<in> set mid. \<not> is_write_to GPIOA_ODR e)"
    unfolding v by blast
  with h show ?thesis by (intro conjI)
qed



text \<open>
  Claim C10. For all contents of GPIOA_ODR before the call, once \<^verbatim>\<open>spi_exchange_data\<close>
  has returned the register holds its old value with bit 4 set: every bit other than
  bit 4 has its value from before the call.
\<close>

theorem exchange_odr_frame:
  assumes "spi_exchange_data s tx = Some (u, s')"
  shows "mem s' GPIOA_ODR = mem s GPIOA_ODR OR NSS_PIN \<and>
         (i \<noteq> 4 \<longrightarrow> bit (mem s' GPIOA_ODR) i = bit (mem s GPIOA_ODR) i)"
proof -
  from assms obtain n m k where s': "s' = exchange_result s tx n m k"
    unfolding spi_exchange_data_Some_iff by blast
  have odr: "mem s' GPIOA_ODR = mem s GPIOA_ODR AND NOT NSS_PIN OR NSS_PIN"
    unfolding s' exchange_result_mem by simp
  have "mem s GPIOA_ODR AND NOT NSS_PIN OR NSS_PIN = mem s GPIOA_ODR OR NSS_PIN"
    by (simp add: bit.disj_conj_distrib2)
  moreover have "i \<noteq> 4 \<Longrightarrow> bit (mem s GPIOA_ODR AND NOT NSS_PIN OR NSS_PIN) i = bit (mem s GPIOA_ODR) i"
    by (rule field_update_frame) (simp_all add: bit_NSS_PIN)
  ultimately show ?thesis unfolding odr by simp
qed

theorem exchange_odr_frame_witness:
  "spi_exchange_data (mock 0xFFFFFFEF [2, 0, 1] 0xAA) 0x55 =
     Some ((), exchange_result (mock 0xFFFFFFEF [2, 0, 1] 0xAA) 0x55 0 0 0) \<and>
   (0::nat) \<noteq> 4 \<and>
   mem (exchange_result (mock 0xFFFFFFEF [2, 0, 1] 0xAA) 0x55 0 0 0) GPIOA_ODR = 0xFFFFFFFF \<and>
   bit (mem (exchange_result (mock 0xFFFFFFEF [2, 0, 1] 0xAA) 0x55 0 0 0) GPIOA_ODR) 0"
proof -
  have "mem (mock 0xFFFFFFEF [2, 0, 1] 0xAA) GPIOA_ODR = 0xFFFFFFEF"
    "(0xFFFFFFEF :: u32) OR NSS_PIN = 0xFFFFFFFF"
    by (simp_all add: mock_def NSS_PIN_def)
  with exchange_odr_frame [OF mock_returns [of "0xFFFFFFEF" "0xAA" "0x55"], of 0]
    mock_returns [of "0xFFFFFFEF" "0xAA" "0x55"]
  show ?thesis by simp
qed

text \<open>
  Claim C1, as stated: \<^verbatim>\<open>spi_exchange_data\<close> returns to its caller the byte read from the
  data register after the RXNE poll. The function is \<^verbatim>\<open>void\<close>. In two runs that differ
  only in the byte the data register yields (0xAA and 0x3C), the data register is read
  once with these two values and \<^verbatim>\<open>spi_receive\<close> returns them, but the value
  \<^verbatim>\<open>spi_exchange_data\<close> hands back is the same \<open>()\<close> in both: the received byte is not
  part of its result.
\<close>

theorem exchange_returns_byte_counterexample:
  "map_option fst (spi_exchange_data (mock 0 [2, 0, 1] 0xAA) 0x55) = Some () \<and>
   map_option fst (spi_exchange_data (mock 0 [2, 0, 1] 0x3C) 0x55) = Some () \<and>
   map_option (\<lambda>(u, s'). reads_of SPI1_DR (trace s'))
     (spi_exchange_data (mock 0 [2, 0, 1] 0xAA) 0x55) = Some [0xAA] \<and>
   map_option (\<lambda>(u, s'). reads_of SPI1_DR (trace s'))
     (spi_exchange_data (mock 0 [2, 0, 1] 0x3C) 0x55) = Some [0x3C] \<and>
   map_option fst (spi_receive (mock 0 [1] 0xAA)) = Some 0xAA \<and>
   map_option fst (spi_receive (mock 0 [1] 0x3C)) = Some 0x3C"
proof -
  have ev: "reads_of SPI1_DR (trace (exchange_result (mock 0 [2, 0, 1] rx) 0x55 0 0 0)) = [rx]" for rx
    using exchange_result_events [of "mock 0 [2, 0, 1] rx" "0x55" 0 0 0]
    by (simp add: events_since_def mock_def)
  have "exits_after RXNE_clear (mock 0 [1] rx) 0" for rx
    by (simp add: exits_after_def mock_def RXNE_clear_iff)
  then have "spi_receive (mock 0 [1] rx) =
      Some (ucast (dr_script (mock 0 [1] rx) (dr_reads (mock 0 [1] rx))),
            snd (reg_read SPI1_DR (sr_polls (Suc 0) (mock 0 [1] rx))))" for rx
    unfolding spi_receive_Some_iff by blast
  then have rc: "map_option fst (spi_receive (mock 0 [1] rx)) = Some (ucast rx)" for rx
    by (simp add: mock_def)
  show ?thesis
    using rc [of "0xAA"] rc [of "0x3C"] by (simp add: mock_returns ev)
qed

text \<open>
  Claim C1, amended: for every input byte and every exchange that returns, the data
  register is read exactly once in the call, right after a status read showing RXNE set;
  \<^verbatim>\<open>spi_receive\<close> returns the low eight bits of that read to \<^verbatim>\<open>spi_exchange_data\<close>,
  which keeps it in a local only: the result of \<^verbatim>\<open>spi_exchange_data\<close> is \<open>()\<close> together
  with the register state left by \<^verbatim>\<open>spi_receive\<close> after the chip-select release.
\<close>

theorem exchange_discards_received_byte:
  assumes "spi_exchange_data s tx = Some (u, s')"
  shows "\<exists>s2 rx s3 pre w.
           spi_transmit (cs_low s) tx = Some s2 \<and>
           spi_receive s2 = Some (rx, s3) \<and>
           rx = ucast (dr_script s (dr_reads s)) \<and>
           events_since s s3 = pre @ [Rd SPI1_SR w, Rd SPI1_DR (dr_script s (dr_reads s))] \<and>
           bit w 0 \<and>
           reads_of SPI1_DR (events_since s s') = [dr_script s (dr_reads s)] \<and>
           (u, s') = ((), reg_or_assign GPIOA_ODR NSS_PIN s3)"
proof -
  have unfold: "spi_exchange_data s tx =
     (case spi_transmit (cs_low s) tx of None \<Rightarrow> None
      | Some s2 \<Rightarrow> (case spi_receive s2 of None \<Rightarrow> None
          | Some (received_data, s3) \<Rightarrow> Some ((), reg_or_assign GPIOA_ODR NSS_PIN s3)))"
    by (simp add: spi_exchange_data_def cs_low_def)
  from assms obtain s2 rx s3 where t: "spi_transmit (cs_low s) tx = Some s2"
    and rc: "spi_receive s2 = Some (rx, s3)"
    and r: "(u, s') = ((), reg_or_assign GPIOA_ODR NSS_PIN s3)"
    unfolding unfold by (auto split: option.splits)
  from t obtain n m where
    s2: "s2 = sr_polls (Suc m) (reg_write SPI1_DR (ucast tx) (sr_polls (Suc n) (cs_low s)))"
    unfolding spi_transmit_Some_iff by blast
  from rc obtain k where k: "exits_after RXNE_clear s2 k"
    and rx: "rx = ucast (dr_script s2 (dr_reads s2))"
    and s3: "s3 = snd (reg_read SPI1_DR (sr_polls (Suc k) s2))"
    unfolding spi_receive_Some_iff by blast
  let ?w = "sr_script s (sr_reads s2 + k)"
  from k have w: "bit ?w 0" by (simp add: exits_after_def RXNE_clear_iff s2)
  have rx': "rx = ucast (dr_script s (dr_reads s))" unfolding rx s2 by simp
  have scr: "sr_script s2 = sr_script s" "dr_script s2 = dr_script s" "dr_reads s2 = dr_reads s"
    unfolding s2 by simp_all
  have "trace s3 = trace s2 @ sr_seen s (sr_reads s2) (sr_reads s2 + k)
      @ [Rd SPI1_SR ?w, Rd SPI1_DR (dr_script s (dr_reads s))]"
    unfolding s3 using sr_seen_snoc [of "sr_reads s2" "sr_reads s2 + k" s]
    by (simp add: reg_read_def Let_def scr sr_seen_cong [of s2 s])
  moreover have "\<exists>mid. trace s2 = trace s @ mid"
    unfolding s2 by simp
  ultimately obtain mid where "trace s3 = trace s @ (mid @ sr_seen s (sr_reads s2) (sr_reads s2 + k))
      @ [Rd SPI1_SR ?w, Rd SPI1_DR (dr_script s (dr_reads s))]"
    by auto
  then have ev: "events_since s s3 = (mid @ sr_seen s (sr_reads s2) (sr_reads s2 + k))
      @ [Rd SPI1_SR ?w, Rd SPI1_DR (dr_script s (dr_reads s))]"
    by (simp add: events_since_def)
  from assms obtain n' m' k' where "s' = exchange_result s tx n' m' k'"
    unfolding spi_exchange_data_Some_iff by blast
  then have rd: "reads_of SPI1_DR (events_since s s') = [dr_script s (dr_reads s)]"
    by (simp add: exchange_result_events)
  from t rc rx' ev w rd r show ?thesis by blast
qed

theorem exchange_discards_received_byte_witness:
  "spi_exchange_data (mock 0 [2, 0, 1] 0x1AA) 0x55 =
     Some ((), exchange_result (mock 0 [2, 0, 1] 0x1AA) 0x55 0 0 0) \<and>
   (\<exists>s2 s3. spi_receive s2 = Some (0xAA, s3) \<and>
      exchange_result (mock 0 [2, 0, 1] 0x1AA) 0x55 0 0 0 = reg_or_assign GPIOA_ODR NSS_PIN s3)"
proof -
  have "(ucast (dr_script (mock 0 [2, 0, 1] 0x1AA) (dr_reads (mock 0 [2, 0, 1] 0x1AA))) :: u8) = 0xAA"
    by (simp add: mock_def)
  with exchange_discards_received_byte [OF mock_returns [of 0 "0x1AA" "0x55"]]
    mock_returns [of 0 "0x1AA" "0x55"]
  show ?thesis by auto
qed

end
